theory Spec2Isabelle
  imports Complex_Main
begin

section \<open>Number base converter: the conversion core of converter\_utils.py\<close>

text \<open>
  The development embeds \<^verbatim>\<open>get_base_value\<close>, \<^verbatim>\<open>validate_number\<close> and
  \<^verbatim>\<open>convert_number_logic\<close> of \<^verbatim>\<open>converter_utils.py\<close>, together with the parts
  of the Python runtime they call: \<^verbatim>\<open>int(str, base)\<close>, \<^verbatim>\<open>str\<close>, \<^verbatim>\<open>bin\<close>,
  \<^verbatim>\<open>oct\<close>, \<^verbatim>\<open>hex\<close>, \<^verbatim>\<open>str.split\<close>, \<^verbatim>\<open>str.isdigit\<close> and the
  \<^verbatim>\<open>decimal\<close> module under the context the module sets up (precision 20).

  Modelling conventions.
  \<^item> A Python string is a list of characters; a character is a code point below 256
    (the Latin-1 range), so \<^typ>\<open>char\<close> is read as a code point, not as a byte.
  \<^item> Python integers are unbounded: \<^typ>\<open>int\<close>. The interpreter's optional limit on the
    number of digits of a decimal integer string is not modelled.
  \<^item> An exception raised inside a \<^verbatim>\<open>try\<close> block is a value: \<open>None\<close> where only
    \<^verbatim>\<open>ValueError\<close> can arise, \<open>Inl\<close> of the exception otherwise.
  \<^item> The call of \<^verbatim>\<open>logger.error\<close> writes a log line and has no effect on results; it is
    left out.
\<close>

subsection \<open>Characters and strings\<close>

definition ord :: "char \<Rightarrow> int" where
  "ord c = of_char c"

definition chr :: "int \<Rightarrow> char" where
  \<comment> \<open>\<^verbatim>\<open>chr(n)\<close>, read on the code points below 256. The program calls it on
      \<open>55 + d\<close> for a digit \<open>d\<close> from ten up to the radix, which is at most 16.\<close>
  "chr n = char_of n"

definition isdigit :: "char \<Rightarrow> bool" where
  \<comment> \<open>\<^verbatim>\<open>str.isdigit\<close> on one character: the ASCII digits and, in the Latin-1 range,
      the superscripts two, three and one (U+00B2, U+00B3, U+00B9).\<close>
  "isdigit c = ((48 \<le> ord c \<and> ord c \<le> 57) \<or> ord c = 178 \<or> ord c = 179 \<or> ord c = 185)"

definition upper_char :: "char \<Rightarrow> char" where
  \<comment> \<open>\<^verbatim>\<open>str.upper\<close> on one character. The letters \<open>a\<close> to \<open>z\<close> and the accented
      Latin-1 letters move down by 32. Three Latin-1 characters (U+00B5, U+00DF, U+00FF)
      have an upper case outside the range; they are left as they are, which agrees with
      Python on every test of the result against the letters \<open>A\<close> to \<open>F\<close>.\<close>
  "upper_char c =
     (if (97 \<le> ord c \<and> ord c \<le> 122) \<or> (224 \<le> ord c \<and> ord c \<le> 254 \<and> ord c \<noteq> 247)
      then char_of (ord c - 32) else c)"

definition upper :: "string \<Rightarrow> string" where
  "upper s = map upper_char s"

definition lower_char :: "char \<Rightarrow> char" where
  "lower_char c =
     (if (65 \<le> ord c \<and> ord c \<le> 90) \<or> (192 \<le> ord c \<and> ord c \<le> 222 \<and> ord c \<noteq> 215)
      then char_of (ord c + 32) else c)"

definition lower :: "string \<Rightarrow> string" where
  "lower s = map lower_char s"

fun split :: "char \<Rightarrow> string \<Rightarrow> string list" where
  \<comment> \<open>\<^verbatim>\<open>s.split(sep)\<close> for a separator of one character.\<close>
  "split sep [] = [[]]"
| "split sep (c # cs) =
     (if c = sep then [] # split sep cs
      else (case split sep cs of [] \<Rightarrow> [[c]] | p # ps \<Rightarrow> (c # p) # ps))"

definition slice_to :: "string \<Rightarrow> int \<Rightarrow> string" where
  \<comment> \<open>\<^verbatim>\<open>s[:k]\<close>: a negative \<open>k\<close> counts from the end.\<close>
  "slice_to s k = (if k < 0 then take (nat (int (length s) + k)) s else take (nat k) s)"

definition startswith :: "string \<Rightarrow> string \<Rightarrow> bool" where
  "startswith s p = (take (length p) s = p)"

subsection \<open>The built-in \<^verbatim>\<open>int(s, base)\<close>\<close>

definition int_space :: "char \<Rightarrow> bool" where
  \<comment> \<open>The white space \<^verbatim>\<open>int\<close> skips at both ends: tab to carriage return, space, and
      U+0085, U+00A0.\<close>
  "int_space c = ((9 \<le> ord c \<and> ord c \<le> 13) \<or> ord c = 32 \<or> ord c = 133 \<or> ord c = 160)"

definition strip :: "string \<Rightarrow> string" where
  "strip s = rev (dropWhile int_space (rev (dropWhile int_space s)))"

definition long_digit_value :: "char \<Rightarrow> int" where
  \<comment> \<open>The interpreter's digit table: 37 marks a character that is no digit in any base.\<close>
  "long_digit_value c =
     (if 48 \<le> ord c \<and> ord c \<le> 57 then ord c - 48
      else if 97 \<le> ord c \<and> ord c \<le> 122 then ord c - 87
      else if 65 \<le> ord c \<and> ord c \<le> 90 then ord c - 55
      else 37)"

fun scan_digits :: "int \<Rightarrow> char \<Rightarrow> string \<Rightarrow> int \<Rightarrow> int option" where
  \<comment> \<open>The digit loop: \<open>prev\<close> is the character read last; one underscore may stand between
      two digits, never two in a row and never at the end.\<close>
  "scan_digits base prev [] acc = (if prev = CHR ''_'' then None else Some acc)"
| "scan_digits base prev (c # cs) acc =
     (if c = CHR ''_'' then (if prev = CHR ''_'' then None else scan_digits base c cs acc)
      else if long_digit_value c < base
        then scan_digits base c cs (acc * base + long_digit_value c)
      else None)"

definition base_prefix :: "int \<Rightarrow> char \<Rightarrow> bool" where
  \<comment> \<open>The letter that may follow a leading zero: \<open>0x\<close> in base 16, \<open>0o\<close> in base 8,
      \<open>0b\<close> in base 2.\<close>
  "base_prefix base c =
     ((base = 16 \<and> (c = CHR ''x'' \<or> c = CHR ''X'')) \<or>
      (base = 8 \<and> (c = CHR ''o'' \<or> c = CHR ''O'')) \<or>
      (base = 2 \<and> (c = CHR ''b'' \<or> c = CHR ''B'')))"

definition skip_sign :: "string \<Rightarrow> bool \<times> string" where
  "skip_sign s =
     (case s of [] \<Rightarrow> (False, [])
      | c # cs \<Rightarrow> if c = CHR ''+'' then (False, cs)
                 else if c = CHR ''-'' then (True, cs) else (False, s))"

definition skip_prefix :: "int \<Rightarrow> string \<Rightarrow> string" where
  \<comment> \<open>After the prefix one underscore is allowed.\<close>
  "skip_prefix base s =
     (case s of z # p # cs \<Rightarrow>
        if z = CHR ''0'' \<and> base_prefix base p
        then (case cs of [] \<Rightarrow> [] | u # us \<Rightarrow> if u = CHR ''_'' then us else cs)
        else s
      | _ \<Rightarrow> s)"

definition py_int :: "string \<Rightarrow> int \<Rightarrow> int option" where
  \<comment> \<open>\<^verbatim>\<open>int(s, base)\<close> for a base from 2 to 36; \<open>None\<close> is \<^verbatim>\<open>ValueError\<close>.\<close>
  "py_int s base =
     (case skip_sign (strip s) of (negative, u) \<Rightarrow>
        (case skip_prefix base u of
           [] \<Rightarrow> None
         | c # cs \<Rightarrow>
             if c = CHR ''_'' then None
             else (case scan_digits base (CHR ''0'') (c # cs) 0 of
                     None \<Rightarrow> None
                   | Some n \<Rightarrow> Some (if negative then - n else n))))"

subsection \<open>The source: base names and validation\<close>

definition get_base_value :: "string \<Rightarrow> int" where
  "get_base_value base_name =
     (if base_name = ''Decimal'' then 10
      else if base_name = ''Binary'' then 2
      else if base_name = ''Octal'' then 8
      else if base_name = ''Hexadecimal'' then 16
      else 10)"

definition fractional_char_ok :: "string \<Rightarrow> char \<Rightarrow> bool" where
  \<comment> \<open>The negation of the test that raises in the loop of \<^verbatim>\<open>validate_number\<close>:
      \<^verbatim>\<open>not char.isdigit() and char.upper() not in 'ABCDEF'[:get_base_value(base_name)-10]\<close>.\<close>
  "fractional_char_ok base_name c =
     (isdigit c \<or>
      upper_char c \<in> set (slice_to ''ABCDEF'' (get_base_value base_name - 10)))"

definition validate_body :: "string \<Rightarrow> string \<Rightarrow> unit option" where
  \<comment> \<open>The \<^verbatim>\<open>try\<close> block of \<^verbatim>\<open>validate_number\<close>; \<open>None\<close> is \<^verbatim>\<open>ValueError\<close>,
      raised by \<^verbatim>\<open>int\<close>, by the loop, or by unpacking a split of more than two parts.\<close>
  "validate_body number_str base_name =
     (if CHR ''.'' \<in> set number_str then
        (case split (CHR ''.'') number_str of
           [integer_part, fractional_part] \<Rightarrow>
             (case py_int integer_part (get_base_value base_name) of
                None \<Rightarrow> None
              | Some _ \<Rightarrow>
                  if list_all (fractional_char_ok base_name) fractional_part
                  then Some () else None)
         | _ \<Rightarrow> None)
      else (case py_int number_str (get_base_value base_name) of
              None \<Rightarrow> None
            | Some _ \<Rightarrow> Some ()))"

definition validate_number :: "string \<Rightarrow> string \<Rightarrow> bool \<times> string" where
  "validate_number number_str base_name =
     (case validate_body number_str base_name of
        Some _ \<Rightarrow> (True, [])
      | None \<Rightarrow> (False, ''Invalid '' @ lower base_name @ '' number''))"

subsection \<open>The built-ins \<^verbatim>\<open>str\<close>, \<^verbatim>\<open>bin\<close>, \<^verbatim>\<open>oct\<close> and \<^verbatim>\<open>hex\<close> on integers\<close>

definition digit_char :: "int \<Rightarrow> char" where
  \<comment> \<open>The digit alphabet \<open>0123456789abcdefghijklmnopqrstuvwxyz\<close> of the formatting
      built-ins, which write lower-case letters.\<close>
  "digit_char d = (if d < 10 then char_of (48 + d) else char_of (87 + d))"

function format_radix :: "int \<Rightarrow> int \<Rightarrow> string" where
  \<comment> \<open>The digits of a non-negative integer, most significant first.\<close>
  "format_radix radix n =
     (if n < radix \<or> radix < 2 then [digit_char n]
      else format_radix radix (n div radix) @ [digit_char (n mod radix)])"
  by pat_completeness auto
termination
  by (relation "measure (\<lambda>(radix, n). nat n)") (auto intro!: int_div_less_self)

declare format_radix.simps [simp del]

definition signed :: "string \<Rightarrow> int \<Rightarrow> string" where
  "signed pre n = (if n < 0 then CHR ''-'' # pre else pre)"

definition py_str :: "int \<Rightarrow> string" where
  "py_str n = signed [] n @ format_radix 10 \<bar>n\<bar>"

definition bin :: "int \<Rightarrow> string" where
  "bin n = signed ''0b'' n @ format_radix 2 \<bar>n\<bar>"

definition oct :: "int \<Rightarrow> string" where
  "oct n = signed ''0o'' n @ format_radix 8 \<bar>n\<bar>"

definition hex :: "int \<Rightarrow> string" where
  "hex n = signed ''0x'' n @ format_radix 16 \<bar>n\<bar>"

subsection \<open>The \<^verbatim>\<open>decimal\<close> module under the program's context\<close>

text \<open>
  A finite \<^verbatim>\<open>Decimal\<close> is a coefficient and an exponent; its value is
  \<open>coeff * 10 ^ expo\<close>. The coefficient carries the sign: a negative zero cannot be
  written, and the program never prints or tests the sign of a zero (a negative zero
  arises only as the negation of the integer 0 inside a subtraction, where it is added
  to a value and leaves it as it is).

  The context is the default one with \<^verbatim>\<open>getcontext().prec = 20\<close>: rounding half-even,
  exponents from \<open>-999999\<close> to \<open>999999\<close>, with the traps of the default context
  (\<^verbatim>\<open>InvalidOperation\<close>, \<^verbatim>\<open>DivisionByZero\<close>, \<^verbatim>\<open>Overflow\<close>) raising.
  Every operation computes the exact result and rounds it once (\<open>finalize\<close>), which is
  what the General Decimal Arithmetic specification prescribes for sum, difference,
  product and quotient. For the power with an integer exponent the library guarantees
  this when the exact power has at most 23 digits; beyond that its result may differ
  from the correctly rounded one in the last place, and the model takes the correctly
  rounded one.
\<close>

datatype py_exception = ValueError | Overflow | DivisionByZero | InvalidOperation

record decimal =
  coeff :: int
  expo :: int

definition prec :: int where "prec = 20"
definition Emax :: int where "Emax = 999999"
definition Emin :: int where "Emin = - 999999"
definition Etiny :: int where "Etiny = Emin - prec + 1"
definition Etop :: int where "Etop = Emax - prec + 1"

definition Decimal :: "int \<Rightarrow> decimal" where
  \<comment> \<open>\<^verbatim>\<open>Decimal(n)\<close> for an integer: exact, whatever the precision.\<close>
  "Decimal n = \<lparr>coeff = n, expo = 0\<rparr>"

definition ndigits :: "int \<Rightarrow> int" where
  \<comment> \<open>The number of decimal digits of a coefficient; zero has one digit.\<close>
  "ndigits c = int (length (format_radix 10 c))"

definition round_half_even :: "int \<Rightarrow> nat \<Rightarrow> int" where
  \<comment> \<open>Drop the last \<open>k\<close> digits of \<open>c\<close>, rounding to nearest, ties to even.\<close>
  "round_half_even c k =
     (let q = c div 10 ^ k; r = c mod 10 ^ k
      in if 2 * r > 10 ^ k \<or> (2 * r = 10 ^ k \<and> odd q) then q + 1 else q)"

definition finalize :: "decimal \<Rightarrow> py_exception + decimal" where
  \<comment> \<open>Rounding of an exact result to the context: at most \<open>prec\<close> digits, exponent not
      below \<open>Etiny\<close>, \<^verbatim>\<open>Overflow\<close> above \<open>Emax\<close>.\<close>
  "finalize d =
     (if coeff d = 0 then Inr \<lparr>coeff = 0, expo = min (max (expo d) Etiny) Emax\<rparr>
      else
        let exp_min = ndigits \<bar>coeff d\<bar> + expo d - prec in
        if exp_min > Etop then Inl Overflow
        else
          let exp_min = max exp_min Etiny in
          if expo d < exp_min then
            (let c = round_half_even \<bar>coeff d\<bar> (nat (exp_min - expo d));
                 carry = (ndigits c > prec);
                 c = (if carry then c div 10 else c);
                 exp_min = (if carry then exp_min + 1 else exp_min)
             in if exp_min > Etop then Inl Overflow
                else Inr \<lparr>coeff = sgn (coeff d) * c, expo = exp_min\<rparr>)
          else Inr d)"

definition dec_add :: "decimal \<Rightarrow> decimal \<Rightarrow> py_exception + decimal" where
  "dec_add a b =
     (let e = min (expo a) (expo b)
      in finalize \<lparr>coeff = coeff a * 10 ^ nat (expo a - e) + coeff b * 10 ^ nat (expo b - e),
                   expo = e\<rparr>)"

definition dec_sub :: "decimal \<Rightarrow> decimal \<Rightarrow> py_exception + decimal" where
  "dec_sub a b = dec_add a (b\<lparr>coeff := - coeff b\<rparr>)"

definition dec_mul :: "decimal \<Rightarrow> decimal \<Rightarrow> py_exception + decimal" where
  "dec_mul a b = finalize \<lparr>coeff = coeff a * coeff b, expo = expo a + expo b\<rparr>"

function reduce_quotient :: "int \<Rightarrow> int \<Rightarrow> int \<Rightarrow> int \<times> int" where
  \<comment> \<open>An exact quotient sheds trailing zeros while its exponent is below the ideal one.\<close>
  "reduce_quotient q e ideal =
     (if e < ideal \<and> q mod 10 = 0 then reduce_quotient (q div 10) (e + 1) ideal else (q, e))"
  by pat_completeness auto
termination
  by (relation "measure (\<lambda>(q, e, ideal). nat (ideal - e))") auto

declare reduce_quotient.simps [simp del]

definition dec_div :: "decimal \<Rightarrow> decimal \<Rightarrow> py_exception + decimal" where
  "dec_div a b =
     (if coeff b = 0 then Inl (if coeff a = 0 then InvalidOperation else DivisionByZero)
      else if coeff a = 0 then finalize \<lparr>coeff = 0, expo = expo a - expo b\<rparr>
      else
        let ca = \<bar>coeff a\<bar>; cb = \<bar>coeff b\<bar>;
            shift = ndigits cb - ndigits ca + prec + 1;
            e = expo a - expo b - shift;
            num = (if shift \<ge> 0 then ca * 10 ^ nat shift else ca);
            den = (if shift \<ge> 0 then cb else cb * 10 ^ nat (- shift));
            q = num div den; r = num mod den;
            (q, e) = (if r \<noteq> 0 then (if q mod 5 = 0 then q + 1 else q, e)
                      else reduce_quotient q e (expo a - expo b))
        in finalize \<lparr>coeff = sgn (coeff a) * sgn (coeff b) * q, expo = e\<rparr>)"

definition dec_pow :: "decimal \<Rightarrow> nat \<Rightarrow> py_exception + decimal" where
  \<comment> \<open>\<^verbatim>\<open>a ** i\<close> for an integer \<open>i \<ge> 1\<close>.\<close>
  "dec_pow a i = finalize \<lparr>coeff = coeff a ^ i, expo = expo a * int i\<rparr>"

definition dec_int :: "decimal \<Rightarrow> int" where
  \<comment> \<open>\<^verbatim>\<open>int(d)\<close>: truncation towards zero.\<close>
  "dec_int d =
     (if expo d \<ge> 0 then coeff d * 10 ^ nat (expo d)
      else sgn (coeff d) * (\<bar>coeff d\<bar> div 10 ^ nat (- expo d)))"

definition dec_str :: "decimal \<Rightarrow> string" where
  \<comment> \<open>\<^verbatim>\<open>str(d)\<close>: plain notation when the exponent is at most 0 and more than \<open>-6\<close>
      digits stand left of the point, scientific notation otherwise.\<close>
  "dec_str d =
     (let ds = format_radix 10 \<bar>coeff d\<bar>;
          len = int (length ds);
          leftdigits = expo d + len;
          dotplace = (if expo d \<le> 0 \<and> leftdigits > - 6 then leftdigits else 1);
          intpart = (if dotplace \<le> 0 then ''0''
                     else if dotplace \<ge> len
                       then ds @ replicate (nat (dotplace - len)) (CHR ''0'')
                     else take (nat dotplace) ds);
          fracpart = (if dotplace \<le> 0
                        then CHR ''.'' # replicate (nat (- dotplace)) (CHR ''0'') @ ds
                      else if dotplace \<ge> len then []
                      else CHR ''.'' # drop (nat dotplace) ds);
          ex = (if leftdigits = dotplace then []
                else CHR ''E'' # (if leftdigits - dotplace < 0 then CHR ''-'' else CHR ''+'')
                       # format_radix 10 \<bar>leftdigits - dotplace\<bar>)
      in signed [] (coeff d) @ intpart @ fracpart @ ex)"

subsection \<open>The source: \<^verbatim>\<open>convert_number_logic\<close>\<close>

text \<open>
  The local variables \<^verbatim>\<open>from_base_value\<close> and \<^verbatim>\<open>to_base_value\<close> are assigned once,
  from \<^verbatim>\<open>get_base_value\<close>; the model writes the call where the source reads the
  variable. The loops of the source become the recursive functions
  \<open>accumulate\<close> (lines 80 to 85), \<open>integer_loop\<close> (lines 96 to 102) and
  \<open>fractional_loop\<close> (lines 109 to 118).
\<close>

definition int_digit :: "char \<Rightarrow> int option" where
  \<comment> \<open>Lines 81 to 84: \<^verbatim>\<open>int(digit)\<close> for a character with \<^verbatim>\<open>isdigit()\<close>,
      \<^verbatim>\<open>int(digit, 16)\<close> otherwise.\<close>
  "int_digit digit = (if isdigit digit then py_int [digit] 10 else py_int [digit] 16)"

fun accumulate :: "string \<Rightarrow> nat \<Rightarrow> string \<Rightarrow> decimal \<Rightarrow> py_exception + decimal" where
  \<comment> \<open>\<^verbatim>\<open>for i, digit in enumerate(fractional_part, 1)\<close>: \<open>i\<close> is the position of the
      first character of the rest.\<close>
  "accumulate from_base i [] decimal_value = Inr decimal_value"
| "accumulate from_base i (digit # rest) decimal_value =
     (case int_digit digit of
        None \<Rightarrow> Inl ValueError
      | Some digit_value \<Rightarrow>
          (case dec_pow (Decimal (get_base_value from_base)) i of
             Inl e \<Rightarrow> Inl e
           | Inr p \<Rightarrow>
               (case dec_div (Decimal digit_value) p of
                  Inl e \<Rightarrow> Inl e
                | Inr q \<Rightarrow>
                    (case dec_add decimal_value q of
                       Inl e \<Rightarrow> Inl e
                     | Inr v \<Rightarrow> accumulate from_base (Suc i) rest v))))"

definition digit_text :: "int \<Rightarrow> string" where
  \<comment> \<open>The branch of lines 98 to 101 and of lines 112 to 115: \<^verbatim>\<open>str(d)\<close> below ten,
      \<^verbatim>\<open>chr(55 + d)\<close> from ten on.\<close>
  "digit_text d = (if d < 10 then py_str d else [chr (55 + d)])"

function integer_loop :: "string \<Rightarrow> int \<Rightarrow> string \<Rightarrow> string" where
  "integer_loop to_base temp integer_result =
     (if temp > 0
      then integer_loop to_base (temp div get_base_value to_base)
             (digit_text (temp mod get_base_value to_base) @ integer_result)
      else integer_result)"
  by pat_completeness auto
termination
proof (relation "measure (\<lambda>(to_base, temp, integer_result). nat temp)")
  show "wf (measure (\<lambda>(to_base, temp, integer_result). nat temp))"
    by simp
next
  fix to_base :: string and temp :: int and integer_result :: string
  assume pos: "0 < temp"
  have "1 < get_base_value to_base"
    by (simp add: get_base_value_def)
  then have "temp div get_base_value to_base < temp"
    using pos by (simp add: int_div_less_self)
  then show "((to_base, temp div get_base_value to_base,
               digit_text (temp mod get_base_value to_base) @ integer_result),
              (to_base, temp, integer_result))
             \<in> measure (\<lambda>(to_base, temp, integer_result). nat temp)"
    using pos by simp
qed

declare integer_loop.simps [simp del]

definition integer_result :: "string \<Rightarrow> decimal \<Rightarrow> string" where
  \<comment> \<open>Lines 91 to 102.\<close>
  "integer_result to_base decimal_value =
     (let temp = dec_int decimal_value
      in if temp = 0 then ''0'' else integer_loop to_base temp [])"

fun fractional_loop :: "nat \<Rightarrow> string \<Rightarrow> decimal \<Rightarrow> string \<Rightarrow> py_exception + string" where
  \<comment> \<open>\<^verbatim>\<open>for _ in range(n)\<close> with the \<^verbatim>\<open>break\<close> of line 118; the first argument is the
      number of iterations left.\<close>
  "fractional_loop 0 to_base fractional fractional_result = Inr fractional_result"
| "fractional_loop (Suc n) to_base fractional fractional_result =
     (case dec_mul fractional (Decimal (get_base_value to_base)) of
        Inl e \<Rightarrow> Inl e
      | Inr scaled \<Rightarrow>
          (let digit = dec_int scaled in
           case dec_sub scaled (Decimal digit) of
             Inl e \<Rightarrow> Inl e
           | Inr rest \<Rightarrow>
               if coeff rest = 0 then Inr (fractional_result @ digit_text digit)
               else fractional_loop n to_base rest (fractional_result @ digit_text digit)))"

definition fractional_result :: "string \<Rightarrow> decimal \<Rightarrow> py_exception + string" where
  \<comment> \<open>Lines 105 to 118.\<close>
  "fractional_result to_base decimal_value =
     (case dec_sub decimal_value (Decimal (dec_int decimal_value)) of
        Inl e \<Rightarrow> Inl e
      | Inr fractional \<Rightarrow>
          if coeff fractional > 0 then fractional_loop 10 to_base fractional ''.''
          else Inr [])"

definition parse_fraction :: "string \<Rightarrow> string \<Rightarrow> py_exception + decimal" where
  \<comment> \<open>Lines 76 to 85: the value of a literal with a point, as the accumulator holds it
      after the loop.\<close>
  "parse_fraction number_str from_base =
     (case split (CHR ''.'') number_str of
        [integer_part, fractional_part] \<Rightarrow>
          (case py_int integer_part (get_base_value from_base) of
             None \<Rightarrow> Inl ValueError
           | Some n \<Rightarrow> accumulate from_base 1 fractional_part (Decimal n))
      | _ \<Rightarrow> Inl ValueError)"

definition convert_fraction :: "string \<Rightarrow> string \<Rightarrow> string \<Rightarrow> py_exception + string" where
  \<comment> \<open>Lines 76 to 120: the branch for a literal with a point.\<close>
  "convert_fraction number_str from_base to_base =
     (case parse_fraction number_str from_base of
        Inl e \<Rightarrow> Inl e
      | Inr decimal_value \<Rightarrow>
          if to_base = ''Decimal'' then Inr (dec_str decimal_value)
          else (case fractional_result to_base decimal_value of
                  Inl e \<Rightarrow> Inl e
                | Inr fr \<Rightarrow> Inr (integer_result to_base decimal_value @ fr)))"

definition convert_integer :: "string \<Rightarrow> string \<Rightarrow> string \<Rightarrow> py_exception + string" where
  \<comment> \<open>Lines 123 to 134: the branch for a literal without a point.\<close>
  "convert_integer number_str from_base to_base =
     (case py_int number_str (get_base_value from_base) of
        None \<Rightarrow> Inl ValueError
      | Some decimal_value \<Rightarrow>
          if to_base = ''Decimal'' then Inr (py_str decimal_value)
          else if to_base = ''Binary'' then Inr (drop 2 (bin decimal_value))
          else if to_base = ''Octal'' then Inr (drop 2 (oct decimal_value))
          else if to_base = ''Hexadecimal'' then Inr (upper (drop 2 (hex decimal_value)))
          else Inr (py_str decimal_value))"

definition convert_body :: "string \<Rightarrow> string \<Rightarrow> string \<Rightarrow> py_exception + string" where
  \<comment> \<open>The \<^verbatim>\<open>try\<close> block, lines 71 to 134.\<close>
  "convert_body number_str from_base to_base =
     (if CHR ''.'' \<in> set number_str then convert_fraction number_str from_base to_base
      else convert_integer number_str from_base to_base)"

record conversion_error =
  message :: string
  cause :: py_exception

definition convert_number_logic :: "string \<Rightarrow> string \<Rightarrow> string \<Rightarrow> conversion_error + string" where
  \<comment> \<open>Lines 135 to 137: any exception of the block is replaced by a \<^verbatim>\<open>ValueError\<close>
      with the message below, raised \<^verbatim>\<open>from\<close> the exception caught.\<close>
  "convert_number_logic number_str from_base to_base =
     (case convert_body number_str from_base to_base of
        Inl e \<Rightarrow>
          Inl \<lparr>message = ''Failed to convert '' @ number_str @ '' from '' @ from_base
                           @ '' to '' @ to_base,
               cause = e\<rparr>
      | Inr result \<Rightarrow> Inr result)"

subsection \<open>The specification's functions\<close>











definition point_parts_nonempty :: "string \<Rightarrow> bool" where
  \<comment> \<open>The literal has exactly one point, with a non-empty part on each side.\<close>
  "point_parts_nonempty s =
     (case split (CHR ''.'') s of
        [integer_part, fractional_part] \<Rightarrow> integer_part \<noteq> [] \<and> fractional_part \<noteq> []
      | _ \<Rightarrow> False)"

subsection \<open>Auxiliary notions for the proofs\<close>



definition bounded_by :: "int \<Rightarrow> decimal \<Rightarrow> bool" where
  \<comment> \<open>A non-negative decimal with an exponent of at most 0 and a value of at most \<open>B\<close>.\<close>
  "bounded_by B d = (expo d \<le> 0 \<and> 0 \<le> coeff d \<and> coeff d \<le> B * 10 ^ nat (- expo d))"

definition output_char :: "char \<Rightarrow> bool" where
  \<comment> \<open>The point, a digit \<open>0\<close> to \<open>9\<close>, or a letter \<open>A\<close> to \<open>G\<close>.\<close>
  "output_char c =
     (c = CHR ''.'' \<or> (48 \<le> ord c \<and> ord c \<le> 57) \<or> (65 \<le> ord c \<and> ord c \<le> 71))"

section \<open>Results\<close>

subsection \<open>Worked conversions\<close>

text \<open>
  C2. \<^verbatim>\<open>convert_number_logic("1010.101", "Binary", "Decimal")\<close> returns exactly
  \<^verbatim>\<open>"10.625"\<close>, and \<^verbatim>\<open>convert_number_logic("10.625", "Decimal", "Binary")\<close> returns
  a string that starts with \<^verbatim>\<open>"1010.101"\<close> (it is that string).
\<close>

theorem convert_binary_fraction_examples:
  "convert_number_logic ''1010.101'' ''Binary'' ''Decimal'' = Inr ''10.625'' \<and>
   convert_number_logic ''10.625'' ''Decimal'' ''Binary'' = Inr ''1010.101'' \<and>
   startswith ''1010.101'' ''1010.101''"
  by code_simp

text \<open>
  C3. The claim is that \<^verbatim>\<open>convert_number_logic("0.1", "Decimal", "Binary")\<close> starts with
  \<^verbatim>\<open>"0.0001100110011"\<close>, thirteen fractional digits. The loop of line 109 stops after
  ten digits: the call returns \<^verbatim>\<open>"0.0001100110"\<close>, which is shorter than the prefix
  asked for and so does not start with it.
\<close>

theorem convert_one_tenth_binary:
  "convert_number_logic ''0.1'' ''Decimal'' ''Binary'' = Inr ''0.0001100110'' \<and>
   \<not> startswith ''0.0001100110'' ''0.0001100110011''"
  by code_simp

text \<open>
  C10. The result for the target Decimal and a literal with a point is not always a
  plain digit string: the valid literal \<^verbatim>\<open>"0.00000001"\<close> is returned as
  \<^verbatim>\<open>"1E-8"\<close>, in scientific notation with the character \<open>E\<close>, because line 88
  returns \<^verbatim>\<open>str(decimal_value)\<close>.
\<close>

theorem convert_decimal_scientific_notation:
  "validate_number ''0.00000001'' ''Decimal'' = (True, []) \<and>
   convert_number_logic ''0.00000001'' ''Decimal'' ''Decimal'' = Inr ''1E-8'' \<and>
   CHR ''E'' \<in> set ''1E-8''"
  by code_simp

text \<open>
  C9. The claim is that a literal accepted by \<^verbatim>\<open>validate_number\<close> never makes
  \<^verbatim>\<open>convert_number_logic\<close> raise. The literal made of the digit one, a point and the
  superscript two (U+00B2) is accepted, since \<^verbatim>\<open>isdigit()\<close> holds of the superscript;
  the conversion then calls \<^verbatim>\<open>int\<close> on it, which raises, and the wrapped error comes
  back.
\<close>

theorem validated_literal_raises:
  "validate_number [CHR ''1'', CHR ''.'', CHR 0xB2] ''Decimal'' = (True, []) \<and>
   convert_number_logic [CHR ''1'', CHR ''.'', CHR 0xB2] ''Decimal'' ''Binary'' =
     Inl \<lparr>message = ''Failed to convert '' @ [CHR ''1'', CHR ''.'', CHR 0xB2]
                        @ '' from Decimal to Binary'',
          cause = ValueError\<rparr>"
  by code_simp

subsection \<open>Validation\<close>

lemma split_not_Nil: "split sep s \<noteq> []"
  by (induction s) (auto split: list.splits)



lemma split_single: "split sep s = [a] \<Longrightarrow> s = a \<and> sep \<notin> set a"
proof (induction s arbitrary: a)
  case Nil
  then show ?case by simp
next
  case (Cons c cs)
  show ?case
  proof (cases "c = sep")
    case True
    with Cons.prems show ?thesis by (simp add: split_not_Nil)
  next
    case False
    with Cons.prems obtain p where p: "split sep cs = [p]" and a: "a = c # p"
      by (auto simp: split_not_Nil split: list.splits)
    from Cons.IH [OF p] a False show ?thesis by simp
  qed
qed

lemma split_pair: "split sep s = [a, b] \<Longrightarrow> s = a @ sep # b \<and> sep \<notin> set a \<and> sep \<notin> set b"
proof (induction s arbitrary: a)
  case Nil
  then show ?case by simp
next
  case (Cons c cs)
  show ?case
  proof (cases "c = sep")
    case True
    with Cons.prems have "a = []" and "split sep cs = [b]" by simp_all
    with split_single [of sep cs b] True show ?thesis by simp
  next
    case False
    with Cons.prems obtain p where p: "split sep cs = [p, b]" and a: "a = c # p"
      by (auto simp: split_not_Nil split: list.splits)
    from Cons.IH [OF p] a False show ?thesis by simp
  qed
qed

lemma py_int_Nil: "py_int [] base = None"
  by (simp add: py_int_def strip_def skip_sign_def skip_prefix_def)

lemma validate_number_True: "validate_number s b = (True, []) \<longleftrightarrow> validate_body s b = Some ()"
  by (simp add: validate_number_def split: option.splits)



text \<open>
  C4, as the code has it. When \<^verbatim>\<open>validate_number\<close> returns \<^verbatim>\<open>(True, "")\<close> for a
  literal that contains a point, the literal has exactly one point, the part before it
  is not empty and parses as an integer in the radix, and every character after it
  passes the test of line 48. The part after the point may be empty. So a string with
  two or more points is rejected, and so is a string with nothing before its point.
\<close>

theorem validate_point_shape:
  assumes "validate_number s b = (True, [])" and "CHR ''.'' \<in> set s"
  shows "\<exists>ip fp. split (CHR ''.'') s = [ip, fp] \<and> s = ip @ CHR ''.'' # fp \<and>
           CHR ''.'' \<notin> set ip \<and> CHR ''.'' \<notin> set fp \<and> ip \<noteq> [] \<and>
           py_int ip (get_base_value b) \<noteq> None \<and> list_all (fractional_char_ok b) fp"
proof -
  from assms have body: "validate_body s b = Some ()"
    by (simp add: validate_number_True)
  with assms(2) obtain ip fp where sp: "split (CHR ''.'') s = [ip, fp]"
    and pi: "py_int ip (get_base_value b) \<noteq> None"
    and fr: "list_all (fractional_char_ok b) fp"
    by (auto simp: validate_body_def split: list.splits option.splits if_splits)
  from pi have "ip \<noteq> []" using py_int_Nil by auto
  with split_pair [OF sp] sp pi fr show ?thesis by blast
qed

theorem validate_point_shape_witness:
  "validate_number ''1.5'' ''Decimal'' = (True, []) \<and> CHR ''.'' \<in> set ''1.5'' \<and>
   (\<exists>ip fp. split (CHR ''.'') ''1.5'' = [ip, fp] \<and> ''1.5'' = ip @ CHR ''.'' # fp \<and>
           CHR ''.'' \<notin> set ip \<and> CHR ''.'' \<notin> set fp \<and> ip \<noteq> [] \<and>
           py_int ip (get_base_value ''Decimal'') \<noteq> None \<and>
           list_all (fractional_char_ok ''Decimal'') fp)"
proof -
  have accepted: "validate_number ''1.5'' ''Decimal'' = (True, [])"
    by code_simp
  have point: "CHR ''.'' \<in> set ''1.5''"
    by simp
  from validate_point_shape [OF accepted point] accepted point show ?thesis
    by blast
qed

text \<open>
  The claim C4 as stated also asks for a non-empty part after the point. The literal
  \<^verbatim>\<open>"1."\<close> has an empty one and is accepted: the loop of line 47 runs over no
  character.
\<close>

theorem validate_accepts_empty_fraction:
  "validate_number ''1.'' ''Decimal'' = (True, []) \<and> CHR ''.'' \<in> set ''1.'' \<and>
   \<not> point_parts_nonempty ''1.''"
  by code_simp



subsection \<open>Failure of a conversion\<close>

text \<open>
  C6. Whenever the \<^verbatim>\<open>try\<close> block raises, \<^verbatim>\<open>convert_number_logic\<close> raises the error
  whose message is \<^verbatim>\<open>Failed to convert {number_str} from {from_base} to {to_base}\<close> and
  whose cause is the exception caught; a result string comes back only when the block
  itself returned it.
\<close>

theorem convert_failure_wrapped:
  "(\<forall>e. convert_body number_str from_base to_base = Inl e \<longrightarrow>
       convert_number_logic number_str from_base to_base =
         Inl \<lparr>message = ''Failed to convert '' @ number_str @ '' from '' @ from_base
                          @ '' to '' @ to_base,
              cause = e\<rparr>) \<and>
   (\<forall>r. convert_number_logic number_str from_base to_base = Inr r \<longrightarrow>
       convert_body number_str from_base to_base = Inr r)"
  by (auto simp: convert_number_logic_def split: sum.splits)

theorem convert_failure_wrapped_witness:
  "convert_body ''1.x'' ''Decimal'' ''Binary'' = Inl ValueError \<and>
   convert_number_logic ''1.x'' ''Decimal'' ''Binary'' =
     Inl \<lparr>message = ''Failed to convert 1.x from Decimal to Binary'', cause = ValueError\<rparr> \<and>
   convert_number_logic ''1.5'' ''Decimal'' ''Binary'' = Inr ''1.1'' \<and>
   convert_body ''1.5'' ''Decimal'' ''Binary'' = Inr ''1.1''"
proof -
  have raised: "convert_body ''1.x'' ''Decimal'' ''Binary'' = Inl ValueError"
    by code_simp
  have returned: "convert_number_logic ''1.5'' ''Decimal'' ''Binary'' = Inr ''1.1''"
    by code_simp
  from convert_failure_wrapped [of "''1.x''" "''Decimal''" "''Binary''"] raised
  have "convert_number_logic ''1.x'' ''Decimal'' ''Binary'' =
     Inl \<lparr>message = ''Failed to convert '' @ ''1.x'' @ '' from '' @ ''Decimal''
                          @ '' to '' @ ''Binary'', cause = ValueError\<rparr>"
    by blast
  moreover from convert_failure_wrapped [of "''1.5''" "''Decimal''" "''Binary''"] returned
  have "convert_body ''1.5'' ''Decimal'' ''Binary'' = Inr ''1.1''"
    by blast
  ultimately show ?thesis using raised returned by simp
qed

subsection \<open>The loops of the conversion\<close>

text \<open>
  Every function of the embedding is total: \<open>accumulate\<close> and \<open>fractional_loop\<close> recurse
  on the list and on the count of iterations left, and \<open>integer_loop\<close> has its
  termination proof, which rests on \<^verbatim>\<open>get_base_value\<close> returning at least 2.
\<close>

lemma get_base_value_range: "2 \<le> get_base_value b \<and> get_base_value b \<le> 16"
  by (simp add: get_base_value_def)

lemma format_radix_small: "0 \<le> d \<Longrightarrow> d < radix \<Longrightarrow> format_radix radix d = [digit_char d]"
  by (simp add: format_radix.simps)

lemma digit_text_nonneg: "0 \<le> d \<Longrightarrow> digit_text d = [if d < 10 then digit_char d else chr (55 + d)]"
  by (simp add: digit_text_def py_str_def signed_def format_radix_small)

lemma length_digit_text: "0 \<le> d \<Longrightarrow> length (digit_text d) = 1"
  by (simp add: digit_text_nonneg)

lemma char_of_neq_point:
  fixes k :: int
  assumes "47 \<le> k" and "k < 256"
  shows "char_of k \<noteq> CHR ''.''"
proof
  assume "char_of k = CHR ''.''"
  then have "of_char (char_of k) = (of_char (CHR ''.'') :: int)" by simp
  with assms show False by simp
qed

lemma point_notin_digit_text:
  assumes "0 \<le> d" and "d < 200"
  shows "CHR ''.'' \<notin> set (digit_text d)"
proof -
  have "digit_char d \<noteq> CHR ''.''" if "d < 10"
    using that assms char_of_neq_point [of "48 + d"] by (simp add: digit_char_def)
  moreover have "chr (55 + d) \<noteq> CHR ''.''"
    using assms char_of_neq_point [of "55 + d"] by (simp add: chr_def)
  ultimately show ?thesis using assms(1)
    by (auto simp: digit_text_nonneg)
qed

lemma point_notin_integer_loop:
  "CHR ''.'' \<notin> set acc \<Longrightarrow> CHR ''.'' \<notin> set (integer_loop to_base temp acc)"
proof (induction to_base temp acc rule: integer_loop.induct)
  case (1 to_base temp acc)
  show ?case
  proof (cases "temp > 0")
    case True
    let ?b = "get_base_value to_base"
    have b: "2 \<le> ?b \<and> ?b \<le> 16" by (rule get_base_value_range)
    then have "0 \<le> temp mod ?b" and "temp mod ?b < ?b"
      by simp_all
    with b have "0 \<le> temp mod ?b" and "temp mod ?b < 200"
      by linarith+
    then have "CHR ''.'' \<notin> set (digit_text (temp mod ?b))"
      by (rule point_notin_digit_text)
    with "1.prems" have "CHR ''.'' \<notin> set (digit_text (temp mod ?b) @ acc)"
      by simp
    from "1.IH" [OF True this] True show ?thesis
      by (simp add: integer_loop.simps [of to_base temp acc])
  next
    case False
    with "1.prems" show ?thesis
      by (simp add: integer_loop.simps [of to_base temp acc])
  qed
qed

lemma point_notin_integer_result: "CHR ''.'' \<notin> set (integer_result to_base dv)"
  using point_notin_integer_loop [of "[]" to_base "dec_int dv"]
  by (simp add: integer_result_def Let_def)


lemma round_half_even_nonneg: "0 \<le> c \<Longrightarrow> 0 \<le> round_half_even c k"
  by (simp add: round_half_even_def Let_def pos_imp_zdiv_nonneg_iff)

lemma finalize_nonneg:
  assumes "finalize d = Inr d'" and "0 \<le> coeff d"
  shows "0 \<le> coeff d'"
proof (cases "coeff d = 0")
  case True
  with assms(1) show ?thesis by (auto simp: finalize_def)
next
  case False
  with assms(2) have pos: "0 < coeff d" by simp
  have r: "0 \<le> round_half_even \<bar>coeff d\<bar> k" for k
    by (rule round_half_even_nonneg) simp
  then have r10: "0 \<le> round_half_even \<bar>coeff d\<bar> k div 10" for k
    by (simp add: pos_imp_zdiv_nonneg_iff)
  from assms(1) False pos r r10 show ?thesis
    by (auto simp: finalize_def Let_def split: if_splits)
qed

lemma dec_mul_nonneg:
  assumes "dec_mul f (Decimal b) = Inr scaled" and "0 \<le> coeff f" and "0 \<le> b"
  shows "0 \<le> coeff scaled"
proof -
  from assms(2,3) have "0 \<le> coeff \<lparr>coeff = coeff f * coeff (Decimal b), expo = expo f + expo (Decimal b)\<rparr>"
    by (simp add: Decimal_def)
  with assms(1) show ?thesis
    unfolding dec_mul_def by (rule finalize_nonneg)
qed

lemma dec_int_nonneg: "0 \<le> coeff d \<Longrightarrow> 0 \<le> dec_int d"
  by (simp add: dec_int_def pos_imp_zdiv_nonneg_iff sgn_if)

lemma dec_sub_int_nonneg:
  assumes "dec_sub d (Decimal (dec_int d)) = Inr rest" and "0 \<le> coeff d"
  shows "0 \<le> coeff rest"
proof -
  let ?e = "min (expo d) 0"
  let ?x = "coeff d * 10 ^ nat (expo d - ?e) + - dec_int d * 10 ^ nat (0 - ?e)"
  have fin: "finalize \<lparr>coeff = ?x, expo = ?e\<rparr> = Inr rest"
    using assms(1) by (simp add: dec_sub_def dec_add_def Decimal_def Let_def)
  have "0 \<le> ?x"
  proof (cases "0 \<le> expo d")
    case True
    then show ?thesis by (simp add: dec_int_def min_def)
  next
    case False
    then have e: "min (expo d) 0 = expo d" by simp
    let ?k = "(10::int) ^ nat (- expo d)"
    have "0 \<le> coeff d mod ?k"
      by simp
    then have "coeff d div ?k * ?k \<le> coeff d"
      using div_mult_mod_eq [of "coeff d" ?k] by linarith
    with False assms(2) show ?thesis
      by (simp add: dec_int_def e sgn_if)
  qed
  with fin show ?thesis
    using finalize_nonneg [of "\<lparr>coeff = ?x, expo = ?e\<rparr>" rest] by simp
qed

lemma fractional_loop_length:
  "0 \<le> coeff f \<Longrightarrow> fractional_loop n to_base f acc = Inr out \<Longrightarrow>
   length out \<le> length acc + n"
proof (induction n arbitrary: f acc)
  case 0
  then show ?case by simp
next
  case (Suc n)
  let ?b = "get_base_value to_base"
  from Suc.prems(2) obtain scaled where sc: "dec_mul f (Decimal ?b) = Inr scaled"
    by (auto split: sum.splits)
  have b: "0 \<le> ?b" using get_base_value_range [of to_base] by simp
  from dec_mul_nonneg [OF sc Suc.prems(1) b] have nn: "0 \<le> coeff scaled" .
  then have d: "0 \<le> dec_int scaled" by (rule dec_int_nonneg)
  from Suc.prems(2) sc obtain rest where
    rs: "dec_sub scaled (Decimal (dec_int scaled)) = Inr rest"
    by (auto simp: Let_def split: sum.splits)
  from dec_sub_int_nonneg [OF rs nn] have rn: "0 \<le> coeff rest" .
  show ?case
  proof (cases "coeff rest = 0")
    case True
    with Suc.prems(2) sc rs have "out = acc @ digit_text (dec_int scaled)"
      by (simp add: Let_def)
    with d show ?thesis by (simp add: length_digit_text)
  next
    case False
    with Suc.prems(2) sc rs have
      "fractional_loop n to_base rest (acc @ digit_text (dec_int scaled)) = Inr out"
      by (simp add: Let_def)
    from Suc.IH [OF rn this] d show ?thesis
      by (simp add: length_digit_text)
  qed
qed

lemma fractional_loop_stops:
  assumes "dec_mul f (Decimal (get_base_value to_base)) = Inr scaled"
    and "dec_sub scaled (Decimal (dec_int scaled)) = Inr rest"
    and "coeff rest = 0"
  shows "fractional_loop (Suc n) to_base f acc = Inr (acc @ digit_text (dec_int scaled))"
  using assms by (simp add: Let_def)

lemma fractional_result_length:
  assumes "fractional_result to_base dv = Inr fr"
  shows "length fr \<le> 11"
proof -
  from assms obtain z where z: "dec_sub dv (Decimal (dec_int dv)) = Inr z"
    by (auto simp: fractional_result_def split: sum.splits)
  show ?thesis
  proof (cases "0 < coeff z")
    case True
    with assms z have "fractional_loop 10 to_base z ''.'' = Inr fr"
      by (simp add: fractional_result_def)
    from fractional_loop_length [OF _ this] True show ?thesis by simp
  next
    case False
    with assms z show ?thesis by (simp add: fractional_result_def)
  qed
qed

lemma fractional_result_zero:
  assumes "dec_sub dv (Decimal (dec_int dv)) = Inr z" and "\<not> 0 < coeff z"
  shows "fractional_result to_base dv = Inr []"
  using assms by (simp add: fractional_result_def)

lemma convert_fraction_shape:
  assumes "CHR ''.'' \<in> set number_str" and "to_base \<noteq> ''Decimal''"
    and "convert_number_logic number_str from_base to_base = Inr r"
  shows "\<exists>dv fr. parse_fraction number_str from_base = Inr dv \<and>
           fractional_result to_base dv = Inr fr \<and> r = integer_result to_base dv @ fr"
  using assms
  by (auto simp: convert_number_logic_def convert_body_def convert_fraction_def
           split: sum.splits)


text \<open>
  C7. \<^verbatim>\<open>convert_number_logic\<close> terminates on every input (the functions above are
  total). For a literal with a point and a target other than Decimal, what the result
  holds from its point on has at most eleven characters, the point and ten digits. The
  loop that writes the digits runs at most as many times as its count and adds one
  character per run; it returns as soon as a remainder is zero, whatever count is left;
  and when the fraction is not positive before the first run, the result is the integer
  part alone, which holds no point.
\<close>

theorem fractional_digits_bounded:
  "(CHR ''.'' \<in> set number_str \<and> to_base \<noteq> ''Decimal'' \<and>
    convert_number_logic number_str from_base to_base = Inr r
      \<longrightarrow> length (dropWhile (\<lambda>c. c \<noteq> CHR ''.'') r) \<le> 11) \<and>
   (0 \<le> coeff f \<and> fractional_loop n to_base f acc = Inr out
      \<longrightarrow> length out \<le> length acc + n) \<and>
   (dec_mul f (Decimal (get_base_value to_base)) = Inr scaled \<and>
    dec_sub scaled (Decimal (dec_int scaled)) = Inr rest \<and> coeff rest = 0
      \<longrightarrow> fractional_loop (Suc n) to_base f acc = Inr (acc @ digit_text (dec_int scaled))) \<and>
   (CHR ''.'' \<in> set whole \<and> target \<noteq> ''Decimal'' \<and> parse_fraction whole source = Inr dv \<and>
    dec_sub dv (Decimal (dec_int dv)) = Inr z \<and> \<not> 0 < coeff z
      \<longrightarrow> convert_number_logic whole source target = Inr (integer_result target dv) \<and>
          CHR ''.'' \<notin> set (integer_result target dv))"
proof (intro conjI impI)
  assume a: "CHR ''.'' \<in> set number_str \<and> to_base \<noteq> ''Decimal'' \<and>
    convert_number_logic number_str from_base to_base = Inr r"
  then obtain dv' fr where fr: "fractional_result to_base dv' = Inr fr"
    and r: "r = integer_result to_base dv' @ fr"
    using convert_fraction_shape [of number_str to_base from_base r] by blast
  have "dropWhile (\<lambda>c. c \<noteq> CHR ''.'') r = dropWhile (\<lambda>c. c \<noteq> CHR ''.'') fr"
    unfolding r using point_notin_integer_result [of to_base dv']
    by (intro dropWhile_append2) auto
  moreover have "length (dropWhile (\<lambda>c. c \<noteq> CHR ''.'') fr) \<le> length fr"
    by (rule length_dropWhile_le)
  moreover from fr have "length fr \<le> 11"
    by (rule fractional_result_length)
  ultimately show "length (dropWhile (\<lambda>c. c \<noteq> CHR ''.'') r) \<le> 11"
    by simp
next
  assume "0 \<le> coeff f \<and> fractional_loop n to_base f acc = Inr out"
  then show "length out \<le> length acc + n"
    using fractional_loop_length by blast
next
  assume "dec_mul f (Decimal (get_base_value to_base)) = Inr scaled \<and>
    dec_sub scaled (Decimal (dec_int scaled)) = Inr rest \<and> coeff rest = 0"
  then show "fractional_loop (Suc n) to_base f acc = Inr (acc @ digit_text (dec_int scaled))"
    using fractional_loop_stops by blast
next
  assume a: "CHR ''.'' \<in> set whole \<and> target \<noteq> ''Decimal'' \<and>
    parse_fraction whole source = Inr dv \<and>
    dec_sub dv (Decimal (dec_int dv)) = Inr z \<and> \<not> 0 < coeff z"
  then have "fractional_result target dv = Inr []"
    using fractional_result_zero by blast
  with a show "convert_number_logic whole source target = Inr (integer_result target dv)"
    by (simp add: convert_number_logic_def convert_body_def convert_fraction_def)
next
  show "CHR ''.'' \<notin> set (integer_result target dv)"
    by (rule point_notin_integer_result)
qed

theorem fractional_digits_bounded_witness:
  "CHR ''.'' \<in> set ''10.625'' \<and> ''Binary'' \<noteq> ''Decimal'' \<and>
   convert_number_logic ''10.625'' ''Decimal'' ''Binary'' = Inr ''1010.101'' \<and>
   length (dropWhile (\<lambda>c. c \<noteq> CHR ''.'') ''1010.101'') \<le> 11 \<and>
   0 \<le> coeff \<lparr>coeff = 5, expo = - 1\<rparr> \<and>
   fractional_loop 9 ''Binary'' \<lparr>coeff = 5, expo = - 1\<rparr> ''.10'' = Inr ''.101'' \<and>
   length ''.101'' \<le> length ''.10'' + 9 \<and>
   dec_mul \<lparr>coeff = 5, expo = - 1\<rparr> (Decimal (get_base_value ''Binary''))
     = Inr \<lparr>coeff = 10, expo = - 1\<rparr> \<and>
   dec_sub \<lparr>coeff = 10, expo = - 1\<rparr> (Decimal (dec_int \<lparr>coeff = 10, expo = - 1\<rparr>))
     = Inr \<lparr>coeff = 0, expo = - 1\<rparr> \<and>
   coeff \<lparr>coeff = 0, expo = - 1\<rparr> = 0 \<and>
   fractional_loop (Suc 9) ''Binary'' \<lparr>coeff = 5, expo = - 1\<rparr> ''.10''
     = Inr (''.10'' @ digit_text (dec_int \<lparr>coeff = 10, expo = - 1\<rparr>)) \<and>
   CHR ''.'' \<in> set ''3.0'' \<and> ''Octal'' \<noteq> ''Decimal'' \<and>
   parse_fraction ''3.0'' ''Decimal'' = Inr \<lparr>coeff = 3, expo = 0\<rparr> \<and>
   dec_sub \<lparr>coeff = 3, expo = 0\<rparr> (Decimal (dec_int \<lparr>coeff = 3, expo = 0\<rparr>))
     = Inr \<lparr>coeff = 0, expo = 0\<rparr> \<and>
   \<not> 0 < coeff \<lparr>coeff = 0, expo = 0\<rparr> \<and>
   convert_number_logic ''3.0'' ''Decimal'' ''Octal''
     = Inr (integer_result ''Octal'' \<lparr>coeff = 3, expo = 0\<rparr>) \<and>
   CHR ''.'' \<notin> set (integer_result ''Octal'' \<lparr>coeff = 3, expo = 0\<rparr>)"
proof -
  have h1: "CHR ''.'' \<in> set ''10.625'' \<and> ''Binary'' \<noteq> ''Decimal'' \<and>
    convert_number_logic ''10.625'' ''Decimal'' ''Binary'' = Inr ''1010.101''"
    by code_simp
  have h2: "0 \<le> coeff \<lparr>coeff = 5, expo = - 1\<rparr> \<and>
    fractional_loop 9 ''Binary'' \<lparr>coeff = 5, expo = - 1\<rparr> ''.10'' = Inr ''.101''"
    by code_simp
  have h3: "dec_mul \<lparr>coeff = 5, expo = - 1\<rparr> (Decimal (get_base_value ''Binary''))
      = Inr \<lparr>coeff = 10, expo = - 1\<rparr> \<and>
    dec_sub \<lparr>coeff = 10, expo = - 1\<rparr> (Decimal (dec_int \<lparr>coeff = 10, expo = - 1\<rparr>))
      = Inr \<lparr>coeff = 0, expo = - 1\<rparr> \<and>
    coeff \<lparr>coeff = 0, expo = - 1\<rparr> = 0"
    by code_simp
  have h4: "CHR ''.'' \<in> set ''3.0'' \<and> ''Octal'' \<noteq> ''Decimal'' \<and>
    parse_fraction ''3.0'' ''Decimal'' = Inr \<lparr>coeff = 3, expo = 0\<rparr> \<and>
    dec_sub \<lparr>coeff = 3, expo = 0\<rparr> (Decimal (dec_int \<lparr>coeff = 3, expo = 0\<rparr>))
      = Inr \<lparr>coeff = 0, expo = 0\<rparr> \<and>
    \<not> 0 < coeff \<lparr>coeff = 0, expo = 0\<rparr>"
    by code_simp
  note t = fractional_digits_bounded
    [of "''10.625''" "''Binary''" "''Decimal''" "''1010.101''"
        "\<lparr>coeff = 5, expo = - 1\<rparr>" 9 "''.10''" "''.101''"
        "\<lparr>coeff = 10, expo = - 1\<rparr>" "\<lparr>coeff = 0, expo = - 1\<rparr>"
        "''3.0''" "''Octal''" "''Decimal''" "\<lparr>coeff = 3, expo = 0\<rparr>"
        "\<lparr>coeff = 0, expo = 0\<rparr>"]
  from t h1 have c1: "length (dropWhile (\<lambda>c. c \<noteq> CHR ''.'') ''1010.101'') \<le> 11"
    by blast
  from t h2 have c2: "length ''.101'' \<le> length ''.10'' + 9"
    by blast
  from t h3 have c3: "fractional_loop (Suc 9) ''Binary'' \<lparr>coeff = 5, expo = - 1\<rparr> ''.10''
     = Inr (''.10'' @ digit_text (dec_int \<lparr>coeff = 10, expo = - 1\<rparr>))"
    by blast
  from t h4 have c4: "convert_number_logic ''3.0'' ''Decimal'' ''Octal''
     = Inr (integer_result ''Octal'' \<lparr>coeff = 3, expo = 0\<rparr>) \<and>
   CHR ''.'' \<notin> set (integer_result ''Octal'' \<lparr>coeff = 3, expo = 0\<rparr>)"
    by blast
  from h1 h2 h3 h4 c1 c2 c3 c4 show ?thesis
    by blast
qed

subsection \<open>Integer literals: parsing and rendering\<close>

lemma ord_char_of: "0 \<le> k \<Longrightarrow> k < 256 \<Longrightarrow> ord (char_of k) = k"
  by (simp add: ord_def)

































text \<open>
  It fails as well for a negative literal, which \<^verbatim>\<open>validate_number\<close> accepts:
  \<^verbatim>\<open>bin(-1)[2:]\<close> cuts the sign and the zero of \<^verbatim>\<open>"-0b1"\<close> and leaves \<^verbatim>\<open>"b1"\<close>.
\<close>

lemma convert_negative_binary:
  "validate_number ''-1'' ''Binary'' = (True, []) \<and>
   convert_number_logic ''-1'' ''Binary'' ''Binary'' = Inr ''b1''"
  by code_simp

subsection \<open>The fractional digits of a non-negative value\<close>

text \<open>
  For a non-negative accumulator the loop of lines 109 to 118 raises nothing, and every
  digit it takes lies between 0 and the radix: a remainder is at most one, so the scaled
  remainder is at most the radix after rounding. Hence \<^verbatim>\<open>chr\<close> is called on 65 to 71
  only, and the fractional result is written with the point, the digits and the letters
  \<open>A\<close> to \<open>G\<close> (the radix itself can appear as a digit, when a scaled remainder rounds up to it).
\<close>

lemma format_radix_length_pos: "0 < length (format_radix radix c)"
  by (simp add: format_radix.simps [of radix c])

lemma format_radix_lower:
  "0 < c \<Longrightarrow> (10::int) ^ (length (format_radix 10 c) - 1) \<le> c"
proof (induction "10::int" c rule: format_radix.induct)
  case (1 c)
  show ?case
  proof (cases "c < 10")
    case True
    with "1.prems" show ?thesis
      by (simp add: format_radix.simps [of 10 c])
  next
    case False
    then have q: "0 < c div 10" by simp
    from False have "\<not> (c < 10 \<or> (10::int) < 2)" by simp
    from "1.hyps" [OF this q]
    have ih: "(10::int) ^ (length (format_radix 10 (c div 10)) - 1) \<le> c div 10" .
    have len: "length (format_radix 10 c) = length (format_radix 10 (c div 10)) + 1"
      using False by (simp add: format_radix.simps [of 10 c])
    have "(10::int) ^ (length (format_radix 10 c) - 1)
        = 10 ^ (length (format_radix 10 (c div 10)) - 1) * 10"
      using format_radix_length_pos [of 10 "c div 10"]
      by (simp add: len power_eq_if)
    also have "\<dots> \<le> (c div 10) * 10"
      using ih by simp
    also have "\<dots> \<le> c"
      using div_mult_mod_eq [of c 10] by simp
    finally show ?thesis .
  qed
qed

lemma ndigits_le:
  assumes "0 < c" and "c < 10 ^ m"
  shows "ndigits c \<le> int m"
proof -
  from format_radix_lower [OF assms(1)] assms(2)
  have "(10::int) ^ (length (format_radix 10 c) - 1) < 10 ^ m"
    by (rule le_less_trans)
  then have "length (format_radix 10 c) - 1 < m"
    by simp
  then show ?thesis by (simp add: ndigits_def)
qed

lemma round_half_even_le:
  assumes "0 \<le> c" and "c \<le> B * 10 ^ k"
  shows "round_half_even c k \<le> B"
proof -
  let ?K = "(10::int) ^ k"
  have K: "0 < ?K" by simp
  have q: "c div ?K \<le> B"
    using assms(2) K by (metis nonzero_mult_div_cancel_right zdiv_mono1 less_irrefl)
  show ?thesis
  proof (cases "c div ?K < B")
    case True
    then show ?thesis by (simp add: round_half_even_def Let_def)
  next
    case False
    with q have e: "c div ?K = B" by simp
    with assms(2) div_mult_mod_eq [of c ?K] have "c mod ?K \<le> 0"
      by simp
    moreover have "0 \<le> c mod ?K" using K by simp
    ultimately have "c mod ?K = 0" by simp
    with e show ?thesis by (simp add: round_half_even_def Let_def)
  qed
qed


lemma finalize_bounded:
  assumes "bounded_by B d" and "1 \<le> B" and "B \<le> 16"
  shows "\<exists>d'. finalize d = Inr d' \<and> bounded_by B d'"
proof (cases "coeff d = 0")
  case True
  have "Etiny \<le> 0" by (simp add: Etiny_def Emin_def prec_def)
  with assms True show ?thesis
    by (simp add: finalize_def bounded_by_def)
next
  case False
  from assms(1) have e: "expo d \<le> 0" and c0: "0 \<le> coeff d"
    and cB: "coeff d \<le> B * 10 ^ nat (- expo d)"
    by (simp_all add: bounded_by_def)
  from False c0 have pos: "0 < coeff d" by simp
  then have abs: "\<bar>coeff d\<bar> = coeff d" and sg: "sgn (coeff d) = 1" by simp_all
  let ?m = "nat (- expo d)"
  have b1: "B * 10 ^ ?m \<le> 16 * 10 ^ ?m"
    using assms(3) by (intro mult_right_mono) simp_all
  have b2: "(16::int) * 10 ^ ?m < 100 * 10 ^ ?m"
    by simp
  have b3: "(100::int) * 10 ^ ?m = 10 ^ (?m + 2)"
    by simp
  from cB b1 b2 have "coeff d < 100 * 10 ^ ?m"
    by linarith
  with b3 have "coeff d < 10 ^ (?m + 2)"
    by simp
  from ndigits_le [OF pos this] have nd: "ndigits (coeff d) \<le> int ?m + 2"
    by simp
  let ?x0 = "ndigits (coeff d) + expo d - prec"
  from nd e have x0: "?x0 \<le> - 18"
    by (simp add: prec_def)
  then have notop: "\<not> ?x0 > Etop"
    by (simp add: Etop_def Emax_def prec_def)
  let ?x = "max ?x0 Etiny"
  have x: "?x \<le> - 18"
    using x0 by (simp add: Etiny_def Emin_def prec_def)
  show ?thesis
  proof (cases "expo d < ?x")
    case False
    with pos notop assms(1) show ?thesis
      by (simp add: finalize_def Let_def abs)
  next
    case True
    let ?k = "nat (?x - expo d)"
    let ?q = "round_half_even (coeff d) ?k"
    let ?B' = "B * 10 ^ nat (- ?x)"
    have split: "nat (- expo d) = nat (- ?x) + ?k"
      using True x by arith
    have "coeff d \<le> ?B' * 10 ^ ?k"
      using cB by (simp add: split power_add mult.assoc)
    from round_half_even_le [OF c0 this] have q: "?q \<le> ?B'" .
    have q0: "0 \<le> ?q"
      using c0 by (simp add: round_half_even_def Let_def pos_imp_zdiv_nonneg_iff)
    have Etop: "Etop = 999980"
      by (simp add: Etop_def Emax_def prec_def)
    have x1: "?x + 1 \<le> 0" and x1top: "\<not> ?x + 1 > Etop" and xtop: "\<not> ?x > Etop"
      using x unfolding Etop by arith+
    have carry: "?q div 10 \<le> B * 10 ^ nat (- (?x + 1))"
    proof -
      have "nat (- ?x) = Suc (nat (- (?x + 1)))"
        using x by arith
      then have "?B' = (B * 10 ^ nat (- (?x + 1))) * 10"
        by simp
      with q have "?q \<le> (B * 10 ^ nat (- (?x + 1))) * 10" by simp
      then have "?q div 10 \<le> ((B * 10 ^ nat (- (?x + 1))) * 10) div 10"
        by (rule zdiv_mono1) simp
      then show ?thesis by simp
    qed
    have carry0: "0 \<le> ?q div 10"
      using q0 by (simp add: pos_imp_zdiv_nonneg_iff)
    show ?thesis
    proof (cases "ndigits ?q > prec")
      case True
      with \<open>expo d < ?x\<close> pos notop x1 x1top carry carry0 show ?thesis
        by (simp add: finalize_def Let_def abs sg bounded_by_def)
    next
      case False
      with \<open>expo d < ?x\<close> pos notop x xtop q q0 show ?thesis
        by (simp add: finalize_def Let_def abs sg bounded_by_def)
    qed
  qed
qed


lemma dec_mul_bounded:
  assumes "bounded_by 1 f" and "2 \<le> b" and "b \<le> 16"
  shows "\<exists>scaled. dec_mul f (Decimal b) = Inr scaled \<and> bounded_by b scaled"
proof -
  from assms(1) have e: "expo f \<le> 0" and c0: "0 \<le> coeff f"
    and c1: "coeff f \<le> 10 ^ nat (- expo f)"
    by (simp_all add: bounded_by_def)
  from c1 assms(2) have "coeff f * b \<le> 10 ^ nat (- expo f) * b"
    by (intro mult_right_mono) simp_all
  with e c0 assms(2) have "bounded_by b \<lparr>coeff = coeff f * b, expo = expo f\<rparr>"
    by (simp add: bounded_by_def mult.commute)
  from finalize_bounded [OF this] assms(2,3) show ?thesis
    by (simp add: dec_mul_def Decimal_def)
qed

lemma dec_int_bounded:
  assumes "bounded_by b d"
  shows "0 \<le> dec_int d \<and> dec_int d \<le> b"
proof (cases "expo d = 0")
  case True
  with assms show ?thesis by (simp add: bounded_by_def dec_int_def)
next
  case False
  with assms have e: "expo d < 0" and c0: "0 \<le> coeff d"
    and cb: "coeff d \<le> b * 10 ^ nat (- expo d)"
    by (simp_all add: bounded_by_def)
  let ?K = "(10::int) ^ nat (- expo d)"
  have "coeff d div ?K \<le> (b * ?K) div ?K"
    using cb by (rule zdiv_mono1) simp
  then have "coeff d div ?K \<le> b" by simp
  moreover have "0 \<le> coeff d div ?K"
    using c0 by (simp add: pos_imp_zdiv_nonneg_iff)
  ultimately show ?thesis
    using e c0 by (simp add: dec_int_def sgn_if)
qed

lemma dec_sub_int_bounded:
  assumes "0 \<le> coeff d"
  shows "\<exists>rest. dec_sub d (Decimal (dec_int d)) = Inr rest \<and> bounded_by 1 rest"
proof -
  let ?K = "(10::int) ^ nat (- expo d)"
  let ?x = "coeff d * 10 ^ nat (expo d - min (expo d) 0)
        + - dec_int d * 10 ^ nat (0 - min (expo d) 0)"
  have x: "?x = (if expo d < 0 then coeff d mod ?K else 0)"
  proof (cases "expo d < 0")
    case True
    with assms show ?thesis
      using div_mult_mod_eq [of "coeff d" ?K]
      by (simp add: dec_int_def sgn_if min_def)
  next
    case False
    then show ?thesis by (simp add: dec_int_def min_def)
  qed
  have "coeff d mod ?K < ?K"
    by simp
  then have "coeff d mod ?K \<le> ?K"
    by linarith
  moreover have "0 \<le> coeff d mod ?K"
    by simp
  ultimately have "bounded_by 1 \<lparr>coeff = ?x, expo = min (expo d) 0\<rparr>"
    unfolding x by (simp add: bounded_by_def min_def)
  from finalize_bounded [OF this] show ?thesis
    by (simp add: dec_sub_def dec_add_def Decimal_def Let_def)
qed

lemma digit_text_alphabet:
  assumes "0 \<le> d" and "d \<le> 16"
  shows "list_all output_char (digit_text d)"
proof (cases "d < 10")
  case True
  with assms have "ord (digit_char d) = 48 + d"
    by (simp add: digit_char_def ord_char_of)
  with True assms show ?thesis
    by (simp add: digit_text_nonneg output_char_def)
next
  case False
  with assms have "ord (chr (55 + d)) = 55 + d"
    by (simp add: chr_def ord_char_of)
  with False assms show ?thesis
    by (simp add: digit_text_nonneg output_char_def)
qed

lemma fractional_loop_total:
  assumes "bounded_by 1 f" and "list_all output_char acc"
  shows "\<exists>out. fractional_loop n to_base f acc = Inr out \<and> list_all output_char out"
  using assms
proof (induction n arbitrary: f acc)
  case 0
  then show ?case by simp
next
  case (Suc n)
  let ?b = "get_base_value to_base"
  have b: "2 \<le> ?b" "?b \<le> 16"
    by (simp_all add: get_base_value_def)
  from dec_mul_bounded [OF Suc.prems(1) b] obtain scaled where
    sc: "dec_mul f (Decimal ?b) = Inr scaled" and sb: "bounded_by ?b scaled"
    by blast
  from dec_int_bounded [OF sb] b have d: "0 \<le> dec_int scaled" "dec_int scaled \<le> 16"
    by simp_all
  from sb have "0 \<le> coeff scaled"
    by (simp add: bounded_by_def)
  from dec_sub_int_bounded [OF this] obtain rest where
    rs: "dec_sub scaled (Decimal (dec_int scaled)) = Inr rest" and rb: "bounded_by 1 rest"
    by blast
  from digit_text_alphabet [OF d] Suc.prems(2)
  have acc': "list_all output_char (acc @ digit_text (dec_int scaled))"
    by simp
  show ?case
  proof (cases "coeff rest = 0")
    case True
    with sc rs acc' show ?thesis by (simp add: Let_def)
  next
    case False
    from Suc.IH [OF rb acc'] False sc rs show ?thesis
      by (simp add: Let_def)
  qed
qed


lemma fractional_result_total:
  assumes "0 \<le> coeff dv"
  shows "\<exists>fr. fractional_result to_base dv = Inr fr \<and> list_all output_char fr"
proof -
  from dec_sub_int_bounded [OF assms] obtain fractional where
    f: "dec_sub dv (Decimal (dec_int dv)) = Inr fractional" and fb: "bounded_by 1 fractional"
    by blast
  have "list_all output_char ''.''"
    by (simp add: output_char_def)
  from fractional_loop_total [OF fb this, of 10 to_base] f show ?thesis
    by (auto simp: fractional_result_def)
qed

end
